theory Spec2Isabelle
  imports Complex_Main
begin

section \<open>Data model of the timeline\<close>

text \<open>
  The timeline manager of the editor (class \<open>TimelineManager\<close>) works on the application
  state \<open>app.state\<close> and on its own view fields. Times, durations and pixel coordinates
  are \<open>real\<close>: a finite JavaScript number is the real number it denotes. Ids (readings of
  \<open>Date.now()\<close>) and the zoom level are \<open>int\<close>. The value \<open>null\<close> of an optional
  field is \<open>None\<close>. Rendering (\<open>renderRuler\<close>, \<open>renderClips\<close>) only writes to the
  page and is left out; the toasts shown by \<open>app.showToast\<close> are kept as a log.

  The operations of the first sections compute with exact arithmetic. That is enough for
  the properties that depend only on comparisons, on \<open>max\<close> and \<open>min\<close> and on which
  branch is taken. The section on double-precision arithmetic models the rounding of
  every operation, for the properties that depend on the computed values themselves.
\<close>

datatype track = Video | Audio | Text

record clip =
  clip_id :: int
  mediaId :: "int option"
  name :: string
  track :: track
  startTime :: real
  duration :: real
  thumbnail :: "string option"
  trimStart :: "real option"
  trimEnd :: "real option"
  clip_type :: "string option"

record mediaItem =
  media_id :: int
  media_name :: string
  media_duration :: real
  media_thumbnail :: "string option"

record overlay =
  overlay_id :: int
  content :: string
  overlay_startTime :: real
  overlay_duration :: real

record app_state =
  selectedClip :: "int option"
  currentTime :: real
  clips :: "clip list"
  toasts :: "(string \<times> string) list"

record timeline =
  zoom :: int
  pixelsPerSecond :: real
  isDragging :: bool
  dragClip :: "clip option"
  dragOffset :: real

text \<open>The state built by the constructors of \<open>ViciApp\<close> and \<open>TimelineManager\<close>.\<close>

definition init_state :: app_state where
  "init_state = \<lparr>selectedClip = None, currentTime = 0, clips = [], toasts = []\<rparr>"

definition init_timeline :: timeline where
  "init_timeline =
     \<lparr>zoom = 5, pixelsPerSecond = 50, isDragging = False, dragClip = None, dragOffset = 0\<rparr>"

definition showToast :: "string \<Rightarrow> string \<Rightarrow> app_state \<Rightarrow> app_state" where
  "showToast message ty s = s\<lparr>toasts := toasts s @ [(message, ty)]\<rparr>"

section \<open>Zoom and the time-space mapping\<close>

definition updateZoom :: "int \<Rightarrow> timeline \<Rightarrow> timeline" where
  "updateZoom zoomLevel tm =
     tm\<lparr>zoom := zoomLevel, pixelsPerSecond := 20 + (real_of_int zoomLevel * 15)\<rparr>"

definition zoomIn :: "timeline \<Rightarrow> timeline" where
  "zoomIn tm = updateZoom (min 10 (zoom tm + 1)) tm"

definition zoomOut :: "timeline \<Rightarrow> timeline" where
  "zoomOut tm = updateZoom (max 1 (zoom tm - 1)) tm"

definition setZoom :: "int \<Rightarrow> timeline \<Rightarrow> timeline" where
  "setZoom level tm = updateZoom level tm"

datatype zoom_op = ZoomIn | ZoomOut | SetZoom int

fun zoom_step :: "timeline \<Rightarrow> zoom_op \<Rightarrow> timeline" where
  "zoom_step tm ZoomIn = zoomIn tm"
| "zoom_step tm ZoomOut = zoomOut tm"
| "zoom_step tm (SetZoom level) = setZoom level tm"

fun set_levels :: "zoom_op list \<Rightarrow> int list" where
  "set_levels [] = []"
| "set_levels (SetZoom level # ops) = level # set_levels ops"
| "set_levels (_ # ops) = set_levels ops"

section \<open>Clip store\<close>

definition clip_end :: "clip \<Rightarrow> real" where
  "clip_end c = startTime c + duration c"

text \<open>
  \<open>Array.prototype.reduce\<close> without an initial value starts from the first element and
  folds the rest from the left; the empty case has returned before.
\<close>

definition getNextAvailablePosition :: "track \<Rightarrow> app_state \<Rightarrow> real" where
  "getNextAvailablePosition tr s =
     (let trackClips = filter (\<lambda>c. track c = tr) (clips s) in
      case trackClips of
        [] \<Rightarrow> 0
      | first # rest \<Rightarrow>
          (let lastClip =
             foldl (\<lambda>a b. if (startTime a + duration a) > (startTime b + duration b)
                            then a else b) first rest
           in startTime lastClip + duration lastClip))"

definition addClip :: "mediaItem \<Rightarrow> int \<Rightarrow> app_state \<Rightarrow> app_state" where
  "addClip item now s =
     (let c = \<lparr>clip_id = now,
               mediaId = Some (media_id item),
               name = media_name item,
               track = Video,
               startTime = getNextAvailablePosition Video s,
               duration = media_duration item,
               thumbnail = media_thumbnail item,
               trimStart = Some 0,
               trimEnd = Some 0,
               clip_type = None\<rparr>
      in showToast ''Clip added to timeline'' ''success'' (s\<lparr>clips := clips s @ [c]\<rparr>))"

definition addTextClip :: "overlay \<Rightarrow> app_state \<Rightarrow> app_state" where
  "addTextClip ov s =
     (let c = \<lparr>clip_id = overlay_id ov,
               mediaId = None,
               name = take 20 (content ov) @ ''...'',
               track = Text,
               startTime = overlay_startTime ov,
               duration = overlay_duration ov,
               thumbnail = None,
               trimStart = None,
               trimEnd = None,
               clip_type = Some ''text''\<rparr>
      in s\<lparr>clips := clips s @ [c]\<rparr>)"

text \<open>
  The drop handler is installed on the video and the audio track element only; the clip's
  track is the element id without its suffix \<open>Track\<close>. A payload that \<open>JSON.parse\<close>
  rejects (\<open>None\<close>) is caught and logged to the console, and nothing else happens.
\<close>

datatype drop_target = VideoTrack | AudioTrack

fun target_track :: "drop_target \<Rightarrow> track" where
  "target_track VideoTrack = Video"
| "target_track AudioTrack = Audio"

definition dropClip ::
  "drop_target \<Rightarrow> real \<Rightarrow> real \<Rightarrow> mediaItem option \<Rightarrow> int \<Rightarrow> timeline \<Rightarrow> app_state \<Rightarrow> app_state"
where
  "dropClip target clientX rectLeft payload now tm s =
     (case payload of
        None \<Rightarrow> s
      | Some data \<Rightarrow>
          (let dropX = clientX - rectLeft;
               dropTime = dropX / pixelsPerSecond tm;
               c = \<lparr>clip_id = now,
                    mediaId = Some (media_id data),
                    name = media_name data,
                    track = target_track target,
                    startTime = max 0 dropTime,
                    duration = media_duration data,
                    thumbnail = media_thumbnail data,
                    trimStart = None,
                    trimEnd = None,
                    clip_type = None\<rparr>
           in s\<lparr>clips := clips s @ [c]\<rparr>))"

definition selectClip :: "int \<Rightarrow> app_state \<Rightarrow> app_state" where
  "selectClip clipId s = s\<lparr>selectedClip := Some clipId\<rparr>"

text \<open>\<open>!selectedId\<close>: the id is \<open>null\<close> or the number \<open>0\<close>.\<close>

fun falsy :: "int option \<Rightarrow> bool" where
  "falsy None = True"
| "falsy (Some n) = (n = 0)"

text \<open>\<open>Array.prototype.findIndex\<close>: the first index whose element passes, or \<open>-1\<close>.\<close>

fun findIndex :: "('a \<Rightarrow> bool) \<Rightarrow> 'a list \<Rightarrow> int" where
  "findIndex P [] = - 1"
| "findIndex P (x # xs) =
     (if P x then 0
      else (let r = findIndex P xs in if r = - 1 then - 1 else r + 1))"

definition splitClip :: "int \<Rightarrow> app_state \<Rightarrow> app_state" where
  "splitClip now s =
     (let selectedId = selectedClip s in
      if falsy selectedId then showToast ''Select a clip to split'' ''warning'' s
      else
        (let clipIndex = findIndex (\<lambda>c. Some (clip_id c) = selectedId) (clips s) in
         if clipIndex = - 1 then s
         else
           (let c = clips s ! nat clipIndex;
                splitTime = currentTime s in
            if splitTime \<le> startTime c \<or> splitTime \<ge> startTime c + duration c
            then showToast ''Move playhead inside clip to split'' ''warning'' s
            else
              (let splitPoint = splitTime - startTime c;
                   newClip = c\<lparr>clip_id := now, startTime := splitTime,
                               duration := duration c - splitPoint\<rparr>;
                   c' = c\<lparr>duration := splitPoint\<rparr>
               in showToast ''Clip split'' ''success''
                    (s\<lparr>clips := (clips s)[nat clipIndex := c'] @ [newClip]\<rparr>)))))"

definition deleteSelectedClip :: "app_state \<Rightarrow> app_state" where
  "deleteSelectedClip s =
     (let selectedId = selectedClip s in
      if falsy selectedId then showToast ''Select a clip to delete'' ''warning'' s
      else showToast ''Clip deleted'' ''success''
             (s\<lparr>clips := filter (\<lambda>c. Some (clip_id c) \<noteq> selectedId) (clips s),
                selectedClip := None\<rparr>))"

section \<open>Drag and trim sessions\<close>

text \<open>
  A session holds the clip object that the pointer went down on. The handlers assign to
  the fields of that object; here they return the object with the fields assigned.
\<close>

definition startDrag :: "real \<Rightarrow> clip \<Rightarrow> real \<Rightarrow> timeline \<Rightarrow> timeline" where
  "startDrag clientX c elLeft tm =
     tm\<lparr>isDragging := True, dragClip := Some c, dragOffset := clientX - elLeft\<rparr>"

definition onDrag :: "real \<Rightarrow> real \<Rightarrow> timeline \<Rightarrow> timeline" where
  "onDrag clientX trackLeft tm =
     (if \<not> isDragging tm \<or> dragClip tm = None then tm
      else
        (let newLeft = clientX - trackLeft - dragOffset tm;
             newTime = max 0 (newLeft / pixelsPerSecond tm)
         in tm\<lparr>dragClip := map_option (\<lambda>c. c\<lparr>startTime := newTime\<rparr>) (dragClip tm)\<rparr>))"

definition endDrag :: "timeline \<Rightarrow> timeline" where
  "endDrag tm = tm\<lparr>isDragging := False, dragClip := None\<rparr>"

datatype trim_side = LeftSide | RightSide

record trim_session =
  startX :: real
  startWidth :: real
  startLeft :: real
  side :: trim_side

definition startTrim :: "real \<Rightarrow> clip \<Rightarrow> trim_side \<Rightarrow> timeline \<Rightarrow> trim_session" where
  "startTrim clientX c sd tm =
     \<lparr>startX = clientX,
      startWidth = duration c * pixelsPerSecond tm,
      startLeft = startTime c * pixelsPerSecond tm,
      side = sd\<rparr>"

definition onTrim :: "trim_session \<Rightarrow> real \<Rightarrow> timeline \<Rightarrow> clip \<Rightarrow> clip" where
  "onTrim ts moveX tm c =
     (let delta = moveX - startX ts in
      if side ts = LeftSide then
        (let newLeft = max 0 (startLeft ts + delta);
             newWidth = startWidth ts - delta
         in if newWidth > 30
            then c\<lparr>startTime := newLeft / pixelsPerSecond tm,
                   duration := newWidth / pixelsPerSecond tm\<rparr>
            else c)
      else
        (let newWidth = max 30 (startWidth ts + delta)
         in c\<lparr>duration := newWidth / pixelsPerSecond tm\<rparr>))"


section \<open>Double-precision arithmetic\<close>

text \<open>
  JavaScript numbers are IEEE 754 double-precision values, and every arithmetic operation
  returns the exact result rounded to the nearest double, ties going to the even
  significand. For a positive \<open>x\<close>, \<open>ulp n x\<close> is the distance between neighbouring
  doubles in the binade of \<open>x\<close>: the power of two \<open>u\<close> with
  \<open>u * 2 ^ 52 \<le> x < u * 2 ^ 53\<close>, found by halving or doubling \<open>x\<close> at most \<open>n\<close>
  times. \<open>quantum x\<close> is that distance at \<open>x\<close>; below \<open>2 ^ -1022\<close> (the subnormal
  range) it is \<open>2 ^ -1074\<close>. \<open>nearest x\<close> is the multiple of the quantum nearest to
  \<open>x\<close>. It is the double the hardware returns as long as that is finite, that is for
  \<open>\<bar>x\<bar> < 2 ^ 1024 - 2 ^ 970\<close>; from there on the hardware returns an infinity, which
  \<open>fl\<close> reports as \<open>None\<close>.
\<close>

fun ulp :: "nat \<Rightarrow> real \<Rightarrow> real" where
  "ulp 0 x = 1 / 2 ^ 52"
| "ulp (Suc n) x =
     (if 2 \<le> x then 2 * ulp n (x / 2)
      else if x < 1 then ulp n (x * 2) / 2
      else 1 / 2 ^ 52)"

definition quantum :: "real \<Rightarrow> real" where
  "quantum x = (if \<bar>x\<bar> < 1 / 2 ^ 1022 then 1 / 2 ^ 1074 else ulp 1100 \<bar>x\<bar>)"

definition round_even :: "real \<Rightarrow> int" where
  "round_even y =
     (let f = \<lfloor>y\<rfloor>; r = y - real_of_int f in
      if r < 1 / 2 then f
      else if 1 / 2 < r then f + 1
      else if even f then f else f + 1)"

definition nearest :: "real \<Rightarrow> real" where
  "nearest x = real_of_int (round_even (x / quantum x)) * quantum x"

definition fl :: "real \<Rightarrow> real option" where
  "fl x = (if \<bar>x\<bar> < 2 ^ 1024 - 2 ^ 970 then Some (nearest x) else None)"

text \<open>Addition and subtraction of two doubles whose result is finite.\<close>

definition fadd :: "real \<Rightarrow> real \<Rightarrow> real" where
  "fadd a b = nearest (a + b)"

definition fsub :: "real \<Rightarrow> real \<Rightarrow> real" where
  "fsub a b = nearest (a - b)"

text \<open>
  The source has no named conversion functions; it writes \<open>t * this.pixelsPerSecond\<close>
  (\<open>renderClip\<close>, \<open>updatePlayhead\<close>, \<open>onDrag\<close>) and \<open>x / this.pixelsPerSecond\<close>
  (\<open>onDrag\<close>, the drop handler, \<open>movePlayhead\<close>) in place. The two expressions are
  named here, at the pixel density that \<open>updateZoom\<close> stores for a zoom level
  (\<open>20 + zoomLevel * 15\<close> is a small integer and is computed without rounding). In the
  round trip an infinite pixel position stays infinite when it is divided by the density.
\<close>

definition timeToPixels64 :: "real \<Rightarrow> int \<Rightarrow> real option" where
  "timeToPixels64 t z = fl (t * pixelsPerSecond (updateZoom z init_timeline))"

definition pixelsToTime64 :: "real \<Rightarrow> int \<Rightarrow> real option" where
  "pixelsToTime64 x z = fl (x / pixelsPerSecond (updateZoom z init_timeline))"

definition roundTrip64 :: "real \<Rightarrow> int \<Rightarrow> real option" where
  "roundTrip64 t z =
     (case timeToPixels64 t z of None \<Rightarrow> None | Some x \<Rightarrow> pixelsToTime64 x z)"

text \<open>
  \<open>splitClip\<close> with the arithmetic of its bounds check and of the two new durations
  rounded as the engine computes it: the end of the clip \<open>clip.startTime + clip.duration\<close>,
  the split point \<open>splitTime - clip.startTime\<close> and the remainder
  \<open>clip.duration - splitPoint\<close>.
\<close>

definition splitClip64 :: "int \<Rightarrow> app_state \<Rightarrow> app_state" where
  "splitClip64 now s =
     (let selectedId = selectedClip s in
      if falsy selectedId then showToast ''Select a clip to split'' ''warning'' s
      else
        (let clipIndex = findIndex (\<lambda>c. Some (clip_id c) = selectedId) (clips s) in
         if clipIndex = - 1 then s
         else
           (let c = clips s ! nat clipIndex;
                splitTime = currentTime s in
            if splitTime \<le> startTime c \<or> splitTime \<ge> fadd (startTime c) (duration c)
            then showToast ''Move playhead inside clip to split'' ''warning'' s
            else
              (let splitPoint = fsub splitTime (startTime c);
                   newClip = c\<lparr>clip_id := now, startTime := splitTime,
                               duration := fsub (duration c) splitPoint\<rparr>;
                   c' = c\<lparr>duration := splitPoint\<rparr>
               in showToast ''Clip split'' ''success''
                    (s\<lparr>clips := (clips s)[nat clipIndex := c'] @ [newClip]\<rparr>)))))"

section \<open>Sample data\<close>

definition clipA :: clip where
  "clipA = \<lparr>clip_id = 1700000000000, mediaId = Some 1699999999000, name = ''a.mp4'',
            track = Video, startTime = 0, duration = 10, thumbnail = None,
            trimStart = Some 0, trimEnd = Some 0, clip_type = None\<rparr>"

definition mediaA :: mediaItem where
  "mediaA = \<lparr>media_id = 1699999999000, media_name = ''a.mp4'', media_duration = 10,
             media_thumbnail = None\<rparr>"

definition mediaB :: mediaItem where
  "mediaB = \<lparr>media_id = 1699999999500, media_name = ''b.mp4'', media_duration = 5,
             media_thumbnail = None\<rparr>"

definition clipB :: clip where
  "clipB = \<lparr>clip_id = 1700000005000, mediaId = Some 1699999999500, name = ''b.mp4'',
            track = Video, startTime = 1, duration = 10, thumbnail = None,
            trimStart = Some 0, trimEnd = Some 0, clip_type = None\<rparr>"

definition overlayT :: overlay where
  "overlayT = \<lparr>overlay_id = 1700000005000, content = ''Title'', overlay_startTime = 4,
               overlay_duration = 5\<rparr>"

text \<open>Clip A alone in the store and selected, with the playhead at \<open>t\<close>.\<close>

definition stateA :: "real \<Rightarrow> app_state" where
  "stateA t = \<lparr>selectedClip = Some 1700000000000, currentTime = t, clips = [clipA], toasts = []\<rparr>"

text \<open>A selection whose id no clip of the store carries.\<close>

definition stateStale :: app_state where
  "stateStale = \<lparr>selectedClip = Some 1700000005000, currentTime = 4, clips = [clipA], toasts = []\<rparr>"

text \<open>
  Clip P spans \<open>[0, 0.9)\<close> and is selected, with the playhead at \<open>0.2\<close>; clip Q starts
  at \<open>0.1\<close>, lasts \<open>0.7\<close> and is selected, with the playhead at
  \<open>0.7999999999999999\<close>. The fractions are the doubles that these decimal literals
  denote.
\<close>

definition clipP :: clip where
  "clipP = \<lparr>clip_id = 1700000000000, mediaId = Some 1699999999000, name = ''p.mp4'',
            track = Video, startTime = 0, duration = 8106479329266893 / 9007199254740992,
            thumbnail = None, trimStart = Some 0, trimEnd = Some 0, clip_type = None\<rparr>"

definition stateP :: app_state where
  "stateP = \<lparr>selectedClip = Some 1700000000000,
              currentTime = 3602879701896397 / 18014398509481984,
              clips = [clipP], toasts = []\<rparr>"

definition clipQ :: clip where
  "clipQ = \<lparr>clip_id = 1700000000000, mediaId = Some 1699999999000, name = ''q.mp4'',
            track = Video, startTime = 3602879701896397 / 36028797018963968,
            duration = 3152519739159347 / 4503599627370496,
            thumbnail = None, trimStart = Some 0, trimEnd = Some 0, clip_type = None\<rparr>"

definition stateQ :: app_state where
  "stateQ = \<lparr>selectedClip = Some 1700000000000,
              currentTime = 7205759403792793 / 9007199254740992,
              clips = [clipQ], toasts = []\<rparr>"

text \<open>The view at zoom level 1, where one second is 35 pixels wide.\<close>

definition timeline35 :: timeline where
  "timeline35 = updateZoom 1 init_timeline"

section \<open>Zoom: pixel density\<close>

lemma pixelsPerSecond_updateZoom:
  "pixelsPerSecond (updateZoom z tm) = 20 + real_of_int z * 15"
  by (simp add: updateZoom_def)

lemma zoom_updateZoom: "zoom (updateZoom z tm) = z"
  by (simp add: updateZoom_def)

section \<open>Rounding to the nearest double\<close>

lemma ulp_numeral:
  "ulp (numeral k) x =
     (if 2 \<le> x then 2 * ulp (pred_numeral k) (x / 2)
      else if x < 1 then ulp (pred_numeral k) (x * 2) / 2
      else 1 / 2 ^ 52)"
  by (simp add: numeral_eq_Suc)

lemmas nearest_eval = nearest_def quantum_def round_even_def ulp_numeral

lemma ulp_pos: "0 < ulp n x"
  by (induction n arbitrary: x) simp_all

lemma ulp_bounds:
  "1 \<le> x * 2 ^ n \<Longrightarrow> x < 2 * 2 ^ n \<Longrightarrow> ulp n x * 2 ^ 52 \<le> x \<and> x < ulp n x * 2 ^ 53"
proof (induction n arbitrary: x)
  case 0
  then show ?case by simp
next
  case (Suc n)
  show ?case
  proof (cases "2 \<le> x")
    case True
    have "1 \<le> x / 2 * 2 ^ n"
    proof -
      have "(1::real) \<le> 2 ^ n" by simp
      moreover have "1 \<le> x / 2" using True by simp
      ultimately have "1 * 1 \<le> x / 2 * 2 ^ n" by (intro mult_mono) simp_all
      then show ?thesis by simp
    qed
    moreover have "x / 2 < 2 * 2 ^ n" using Suc.prems(2) by simp
    ultimately have "ulp n (x / 2) * 2 ^ 52 \<le> x / 2 \<and> x / 2 < ulp n (x / 2) * 2 ^ 53"
      by (rule Suc.IH)
    with True show ?thesis by simp
  next
    case False
    show ?thesis
    proof (cases "x < 1")
      case True
      have "1 \<le> x * 2 * 2 ^ n" using Suc.prems(1) by (simp add: mult.assoc)
      moreover have "x * 2 < 2 * 2 ^ n"
      proof -
        have "x * 2 < 2" using True by simp
        also have "\<dots> \<le> 2 * 2 ^ n" by simp
        finally show ?thesis .
      qed
      ultimately have "ulp n (x * 2) * 2 ^ 52 \<le> x * 2 \<and> x * 2 < ulp n (x * 2) * 2 ^ 53"
        by (rule Suc.IH)
      with True False show ?thesis by simp
    next
      case ge: False
      with False show ?thesis by simp
    qed
  qed
qed

lemma quantum_pos: "0 < quantum x"
  by (simp add: quantum_def ulp_pos)

lemma round_even_error: "\<bar>real_of_int (round_even y) - y\<bar> \<le> 1 / 2"
proof -
  have "real_of_int \<lfloor>y\<rfloor> \<le> y" "y < real_of_int \<lfloor>y\<rfloor> + 1" by linarith+
  then show ?thesis by (simp add: round_even_def Let_def)
qed

text \<open>Rounding moves a number by at most half a quantum.\<close>

lemma nearest_error: "\<bar>nearest x - x\<bar> \<le> quantum x / 2"
proof -
  let ?q = "quantum x"
  have q: "0 < ?q" by (rule quantum_pos)
  have "\<bar>nearest x - x\<bar> = \<bar>real_of_int (round_even (x / ?q)) - x / ?q\<bar> * ?q"
  proof -
    have "nearest x - x = (real_of_int (round_even (x / ?q)) - x / ?q) * ?q"
      using q by (simp add: nearest_def field_simps)
    then show ?thesis using q by (simp add: abs_mult)
  qed
  also have "\<dots> \<le> 1 / 2 * ?q"
    using q round_even_error [of "x / ?q"] by (intro mult_right_mono) simp_all
  finally show ?thesis by simp
qed

lemma quantum_le:
  assumes "\<bar>x\<bar> < 2 ^ 1024"
  shows "quantum x \<le> \<bar>x\<bar> / 2 ^ 52 + 1 / 2 ^ 1074"
proof (cases "\<bar>x\<bar> < 1 / 2 ^ 1022")
  case True
  then show ?thesis by (simp add: quantum_def)
next
  case False
  have p: "(2::real) ^ 1100 = 2 ^ 1022 * 2 ^ 78" "(2::real) ^ 1100 = 2 ^ 1024 * 2 ^ 76"
    by (simp_all add: power_add [symmetric])
  have "(1::real) \<le> 2 ^ 78" by (rule one_le_power) simp
  also have "\<dots> = 1 / 2 ^ 1022 * 2 ^ 1100" by (simp only: p) simp
  also have "\<dots> \<le> \<bar>x\<bar> * 2 ^ 1100" using False by (intro mult_right_mono) simp_all
  finally have lo: "1 \<le> \<bar>x\<bar> * 2 ^ 1100" .
  have "(1::real) \<le> 2 ^ 76" by (rule one_le_power) simp
  then have "(2::real) ^ 1024 * 1 \<le> 2 ^ 1024 * 2 ^ 76" by (intro mult_left_mono) simp_all
  then have "(2::real) ^ 1024 \<le> 2 ^ 1100" by (simp only: p) simp
  with assms have hi: "\<bar>x\<bar> < 2 * 2 ^ 1100" by linarith
  from ulp_bounds [OF lo hi] have "ulp 1100 \<bar>x\<bar> * 2 ^ 52 \<le> \<bar>x\<bar>" by simp
  then have "ulp 1100 \<bar>x\<bar> \<le> \<bar>x\<bar> / 2 ^ 52" by (simp add: field_simps)
  with False show ?thesis by (simp add: quantum_def)
qed

lemma nearest_close:
  assumes "\<bar>x\<bar> < 2 ^ 1024"
  shows "\<bar>nearest x - x\<bar> \<le> \<bar>x\<bar> / 2 ^ 53 + 1 / 2 ^ 1075"
proof -
  have "\<bar>nearest x - x\<bar> \<le> quantum x / 2" by (rule nearest_error)
  also have "\<dots> \<le> (\<bar>x\<bar> / 2 ^ 52 + 1 / 2 ^ 1074) / 2"
    using quantum_le [OF assms] by simp
  also have "\<dots> = \<bar>x\<bar> / 2 ^ 53 + 1 / 2 ^ 1075" by simp
  finally show ?thesis .
qed

lemma double_literals:
  "nearest (9 / 10) = 8106479329266893 / 9007199254740992"
  "nearest (2 / 10) = 3602879701896397 / 18014398509481984"
  "nearest (1 / 10) = 3602879701896397 / 36028797018963968"
  "nearest (7 / 10) = 3152519739159347 / 4503599627370496"
  "nearest (7999999999999999 / 10000000000000000) = 7205759403792793 / 9007199254740992"
  "nearest (3 / 100) = 1080863910568919 / 36028797018963968"
  by (simp_all add: nearest_eval)

lemma big_powers:
  "(2::real) ^ 1024 = 16 * 2 ^ 1020" "(2::real) ^ 1024 = 4 * 2 ^ 1022"
  "(2::real) ^ 1020 = 2 ^ 50 * 2 ^ 970" "(2::real) ^ 1022 = 2 ^ 52 * 2 ^ 970"
  by (simp_all add: power_add [symmetric])

lemma tiny_le_one: "(1::real) / 2 ^ 1075 \<le> 1"
  by (simp add: divide_le_eq)

lemma fl_Some: "\<bar>x\<bar> < 2 ^ 1024 - 2 ^ 970 \<Longrightarrow> fl x = Some (nearest x)"
  by (simp add: fl_def)

lemma below_threshold: "\<bar>x::real\<bar> < 2 ^ 1024 - 2 ^ 970 \<Longrightarrow> \<bar>x\<bar> < 2 ^ 1024"
proof -
  assume "\<bar>x\<bar> < 2 ^ 1024 - 2 ^ 970"
  moreover have "(0::real) \<le> 2 ^ 970" by simp
  ultimately show ?thesis by linarith
qed

section \<open>Zoom: round trip between seconds and pixels\<close>

lemma density_range:
  assumes "1 \<le> z" "z \<le> 10"
  shows "35 \<le> pixelsPerSecond (updateZoom z tm) \<and> pixelsPerSecond (updateZoom z tm) \<le> 170"
proof -
  have "real_of_int 1 \<le> real_of_int z" "real_of_int z \<le> real_of_int 10"
    using assms by (simp_all only: of_int_le_iff)
  then show ?thesis by (simp add: pixelsPerSecond_updateZoom)
qed

lemma round_trip_error:
  fixes t k u e p r :: real
  assumes t: "0 \<le> t" and k: "2 \<le> k" and u: "0 \<le> u" "u \<le> 1" and e: "0 \<le> e"
    and p: "\<bar>p - t * k\<bar> \<le> (t * k) * u + e"
    and r: "\<bar>r - p / k\<bar> \<le> \<bar>p / k\<bar> * u + e"
  shows "\<bar>r - t\<bar> \<le> t * (4 * u) + 2 * e"
proof -
  have kpos: "0 < k" using k by simp
  define a where "a = p / k - t"
  have "a = (p - t * k) / k" using kpos by (simp add: a_def field_simps)
  then have "\<bar>a\<bar> = \<bar>p - t * k\<bar> / k" using kpos by (simp add: abs_divide)
  also have "\<dots> \<le> ((t * k) * u + e) / k" using p kpos by (simp add: divide_right_mono)
  also have "\<dots> = t * u + e / k" using kpos by (simp add: field_simps)
  also have "\<dots> \<le> t * u + e / 2"
  proof -
    have "e / k \<le> e / 2" using e k by (intro divide_left_mono) simp_all
    then show ?thesis by simp
  qed
  finally have a: "\<bar>a\<bar> \<le> t * u + e / 2" .
  have tu: "0 \<le> t * u" using t u by simp
  have "\<bar>p / k\<bar> \<le> t + \<bar>a\<bar>" using t by (simp add: a_def)
  then have "\<bar>p / k\<bar> * u \<le> (t + \<bar>a\<bar>) * u" using u by (intro mult_right_mono) simp_all
  also have "\<dots> \<le> t * u + \<bar>a\<bar>"
  proof -
    have "\<bar>a\<bar> * u \<le> \<bar>a\<bar> * 1" using u by (intro mult_left_mono) simp_all
    then show ?thesis by (simp add: algebra_simps)
  qed
  finally have b: "\<bar>p / k\<bar> * u \<le> t * u + \<bar>a\<bar>" .
  have "\<bar>r - t\<bar> \<le> \<bar>r - p / k\<bar> + \<bar>a\<bar>" by (simp add: a_def)
  also have "\<dots> \<le> (t * u + \<bar>a\<bar> + e) + \<bar>a\<bar>" using r b by simp
  also have "\<dots> \<le> t * (4 * u) + 2 * e" using a tu by simp
  finally show ?thesis .
qed

lemma roundTrip64_close:
  assumes z: "1 \<le> z" "z \<le> 10" and t: "0 \<le> t"
    and fin: "t * pixelsPerSecond (updateZoom z init_timeline) < 2 ^ 1024 - 2 ^ 970"
  shows "\<exists>t'. roundTrip64 t z = Some t' \<and> \<bar>t' - t\<bar> \<le> t / 2 ^ 51 + 1 / 2 ^ 1074"
proof -
  define k where "k = pixelsPerSecond (updateZoom z init_timeline)"
  define x where "x = t * k"
  define p where "p = nearest x"
  define r where "r = nearest (p / k)"
  have k: "35 \<le> k" using density_range [OF z, of init_timeline] by (simp add: k_def)
  have x0: "0 \<le> x" using t k by (simp add: x_def)
  have xfin: "\<bar>x\<bar> < 2 ^ 1024 - 2 ^ 970" using fin x0 by (simp add: x_def k_def)
  then have x1024: "\<bar>x\<bar> < 2 ^ 1024" by (rule below_threshold)
  have step1: "timeToPixels64 t z = Some p"
    using fl_Some [OF xfin] by (simp add: timeToPixels64_def p_def x_def k_def)
  have pe: "\<bar>p - x\<bar> \<le> \<bar>x\<bar> / 2 ^ 53 + 1 / 2 ^ 1075"
    unfolding p_def by (rule nearest_close [OF x1024])
  have "\<bar>x\<bar> / 2 ^ 53 \<le> \<bar>x\<bar>" by (simp add: divide_le_eq mult_le_cancel_left1)
  with pe tiny_le_one have "\<bar>p\<bar> \<le> 2 * \<bar>x\<bar> + 1" by linarith
  with x1024 have pb: "\<bar>p\<bar> < 3 * 2 ^ 1024" by simp
  have "\<bar>p / k\<bar> = \<bar>p\<bar> / k" using k by simp
  also have "\<dots> \<le> \<bar>p\<bar> / 35" using k by (intro divide_left_mono) simp_all
  also have "\<dots> < 3 * 2 ^ 1024 / 35" using pb by simp
  finally have qb: "\<bar>p / k\<bar> < 3 * 2 ^ 1024 / 35" .
  have "(2::real) ^ 970 \<le> 2 ^ 1020" by (rule power_increasing) simp_all
  moreover have "(0::real) < 2 ^ 1020" by simp
  ultimately have "3 * (2::real) ^ 1024 / 35 < 2 ^ 1024 - 2 ^ 970"
    by (simp only: big_powers(1))
  with qb have qfin: "\<bar>p / k\<bar> < 2 ^ 1024 - 2 ^ 970" by linarith
  then have q1024: "\<bar>p / k\<bar> < 2 ^ 1024" by (rule below_threshold)
  have step2: "pixelsToTime64 p z = Some r"
    using fl_Some [OF qfin] by (simp add: pixelsToTime64_def r_def k_def)
  have re: "\<bar>r - p / k\<bar> \<le> \<bar>p / k\<bar> / 2 ^ 53 + 1 / 2 ^ 1075"
    unfolding r_def by (rule nearest_close [OF q1024])
  have "\<bar>r - t\<bar> \<le> t * (4 * (1 / 2 ^ 53)) + 2 * (1 / 2 ^ 1075)"
  proof (rule round_trip_error [where k = k and p = p])
    show "0 \<le> t" by (rule t)
    show "2 \<le> k" using k by simp
    show "(0::real) \<le> 1 / 2 ^ 53" "(1::real) / 2 ^ 53 \<le> 1" "(0::real) \<le> 1 / 2 ^ 1075"
      by (simp_all add: divide_le_eq)
    show "\<bar>p - t * k\<bar> \<le> t * k * (1 / 2 ^ 53) + 1 / 2 ^ 1075"
      using pe x0 by (simp add: x_def)
    show "\<bar>r - p / k\<bar> \<le> \<bar>p / k\<bar> * (1 / 2 ^ 53) + 1 / 2 ^ 1075"
      using re by simp
  qed
  also have "\<dots> = t / 2 ^ 51 + 1 / 2 ^ 1074" by simp
  finally have "\<bar>r - t\<bar> \<le> t / 2 ^ 51 + 1 / 2 ^ 1074" .
  moreover have "roundTrip64 t z = Some r" by (simp add: roundTrip64_def step1 step2)
  ultimately show ?thesis by blast
qed

lemma roundTrip64_003:
  "roundTrip64 (1080863910568919 / 36028797018963968) 1
     = Some (8646911284551353 / 288230376151711744)"
  by (simp add: roundTrip64_def timeToPixels64_def pixelsToTime64_def fl_def
      pixelsPerSecond_updateZoom nearest_def quantum_def round_even_def ulp_numeral)

text \<open>
  Claim C5, as amended. For every integer zoom level \<open>z\<close> in \<open>[1,10]\<close> the pixel density
  that \<open>updateZoom\<close> stores is \<open>20 + z * 15\<close>, and it is strictly increasing in \<open>z\<close>.
  For every time \<open>t \<ge> 0\<close> whose pixel position \<open>t * pixelsPerSecond\<close> is finite (below
  \<open>2 ^ 1024 - 2 ^ 970\<close>), multiplying by the density and dividing by it again, each
  rounded to the nearest double, gives a finite \<open>t'\<close> with
  \<open>\<bar>t' - t\<bar> \<le> t / 2 ^ 51 + 1 / 2 ^ 1074\<close>.
\<close>

theorem zoom_mapping_roundtrip:
  "(1 \<le> z \<and> z \<le> 10 \<longrightarrow>
      pixelsPerSecond (updateZoom z tm) = 20 + real_of_int z * 15)
   \<and> (1 \<le> z \<and> z < z' \<and> z' \<le> 10 \<longrightarrow>
      pixelsPerSecond (updateZoom z tm) < pixelsPerSecond (updateZoom z' tm))
   \<and> (1 \<le> z \<and> z \<le> 10 \<and> 0 \<le> t
       \<and> t * pixelsPerSecond (updateZoom z init_timeline) < 2 ^ 1024 - 2 ^ 970 \<longrightarrow>
      (\<exists>t'. roundTrip64 t z = Some t' \<and> \<bar>t' - t\<bar> \<le> t / 2 ^ 51 + 1 / 2 ^ 1074))"
proof (intro conjI impI)
  assume "1 \<le> z \<and> z \<le> 10"
  show "pixelsPerSecond (updateZoom z tm) = 20 + real_of_int z * 15"
    by (rule pixelsPerSecond_updateZoom)
next
  assume "1 \<le> z \<and> z < z' \<and> z' \<le> 10"
  then have "real_of_int z < real_of_int z'" by simp
  then show "pixelsPerSecond (updateZoom z tm) < pixelsPerSecond (updateZoom z' tm)"
    by (simp add: pixelsPerSecond_updateZoom)
next
  assume "1 \<le> z \<and> z \<le> 10 \<and> 0 \<le> t
       \<and> t * pixelsPerSecond (updateZoom z init_timeline) < 2 ^ 1024 - 2 ^ 970"
  then show "\<exists>t'. roundTrip64 t z = Some t' \<and> \<bar>t' - t\<bar> \<le> t / 2 ^ 51 + 1 / 2 ^ 1074"
    using roundTrip64_close [of z t] by blast
qed

text \<open>
  At 35 pixels per second the time \<open>0.03\<close> comes back as \<open>0.030000000000000002\<close>,
  inside the bound.
\<close>

theorem zoom_mapping_roundtrip_witness:
  "pixelsPerSecond (updateZoom 1 init_timeline) = 35
   \<and> pixelsPerSecond (updateZoom 1 init_timeline) < pixelsPerSecond (updateZoom 10 init_timeline)
   \<and> roundTrip64 (1080863910568919 / 36028797018963968) 1
       = Some (8646911284551353 / 288230376151711744)
   \<and> \<bar>8646911284551353 / 288230376151711744 - 1080863910568919 / 36028797018963968\<bar>
       \<le> (1080863910568919 / 36028797018963968) / 2 ^ 51 + (1::real) / 2 ^ 1074"
  using zoom_mapping_roundtrip [of 1 init_timeline 10 "1080863910568919 / 36028797018963968"]
  by (simp add: roundTrip64_003 pixelsPerSecond_updateZoom)

text \<open>
  Claim C5 as stated fails for large times: at zoom level 10 the pixel position of
  \<open>t = 2 ^ 1023\<close> is not a finite number, and the round trip does not return a time.
\<close>

theorem roundtrip_overflow_counterexample:
  "(1::int) \<le> 10 \<and> (0::real) \<le> 2 ^ 1023
   \<and> timeToPixels64 (2 ^ 1023) 10 = None
   \<and> roundTrip64 (2 ^ 1023) 10 = None"
  by (simp add: roundTrip64_def timeToPixels64_def fl_def pixelsPerSecond_updateZoom)

lemma pps35: "pixelsPerSecond timeline35 = 35"
  by (simp add: timeline35_def updateZoom_def)

section \<open>Zoom bounds\<close>

lemma zoomIn_bounds:
  "1 \<le> zoom tm \<Longrightarrow> zoom tm \<le> 10 \<Longrightarrow> 1 \<le> zoom (zoomIn tm) \<and> zoom (zoomIn tm) \<le> 10"
  by (simp add: zoomIn_def zoom_updateZoom)

lemma zoomOut_bounds:
  "1 \<le> zoom tm \<Longrightarrow> zoom tm \<le> 10 \<Longrightarrow> 1 \<le> zoom (zoomOut tm) \<and> zoom (zoomOut tm) \<le> 10"
  by (simp add: zoomOut_def zoom_updateZoom)

lemma zoom_setZoom: "zoom (setZoom level tm) = level"
  by (simp add: setZoom_def zoom_updateZoom)

lemma zoom_steps_bounds:
  "1 \<le> zoom tm \<Longrightarrow> zoom tm \<le> 10 \<Longrightarrow> \<forall>l \<in> set (set_levels ops). 1 \<le> l \<and> l \<le> 10 \<Longrightarrow>
   1 \<le> zoom (foldl zoom_step tm ops) \<and> zoom (foldl zoom_step tm ops) \<le> 10"
proof (induction ops arbitrary: tm)
  case Nil
  then show ?case by simp
next
  case (Cons a ops)
  show ?case
  proof (cases a)
    case ZoomIn
    with Cons.prems zoomIn_bounds [of tm] Cons.IH [of "zoomIn tm"] show ?thesis by simp
  next
    case ZoomOut
    with Cons.prems zoomOut_bounds [of tm] Cons.IH [of "zoomOut tm"] show ?thesis by simp
  next
    case (SetZoom level)
    with Cons.prems zoom_setZoom [of level tm] Cons.IH [of "setZoom level tm"] show ?thesis by simp
  qed
qed

text \<open>
  Claim C7, as amended. \<open>setZoom\<close> stores the level it is given, without a bound.
  Starting from a zoom level in \<open>[1,10]\<close>, after any sequence of \<open>zoomIn\<close>, \<open>zoomOut\<close>
  and \<open>setZoom(level)\<close> calls in which every requested level lies in \<open>[1,10]\<close>, the
  stored zoom level is in \<open>[1,10]\<close>.
\<close>

theorem zoom_bounds_preserved:
  "zoom (setZoom level tm) = level \<and>
   (1 \<le> zoom tm \<and> zoom tm \<le> 10 \<and> (\<forall>l \<in> set (set_levels ops). 1 \<le> l \<and> l \<le> 10) \<longrightarrow>
    1 \<le> zoom (foldl zoom_step tm ops) \<and> zoom (foldl zoom_step tm ops) \<le> 10)"
  using zoom_steps_bounds [of tm ops] zoom_setZoom [of level tm] by blast

theorem zoom_bounds_preserved_witness:
  "zoom (setZoom 7 init_timeline) = 7 \<and>
   zoom (foldl zoom_step init_timeline [ZoomIn, SetZoom 10, ZoomIn, ZoomOut, SetZoom 1, ZoomOut]) = 1"
  using zoom_bounds_preserved [of 7 init_timeline "[ZoomIn, SetZoom 10, ZoomIn, ZoomOut, SetZoom 1, ZoomOut]"]
  by (simp add: init_timeline_def setZoom_def zoomIn_def zoomOut_def updateZoom_def)

text \<open>
  Claim C7 as stated fails for \<open>setZoom\<close>: from the constructor's zoom level 5, the call
  \<open>setZoom(50)\<close> leaves the zoom level at 50.
\<close>

theorem setZoom_unbounded_counterexample:
  "1 \<le> zoom init_timeline \<and> zoom init_timeline \<le> 10
   \<and> zoom (setZoom 50 init_timeline) = 50
   \<and> \<not> (zoom (foldl zoom_step init_timeline [SetZoom 50]) \<le> 10)"
  by (simp add: init_timeline_def setZoom_def updateZoom_def)

section \<open>Placement of an added clip\<close>







section \<open>Splitting the selected clip\<close>

text \<open>
  \<open>findIndex\<close> returns the position of the first clip that carries the selected id, so
  the clip that a selection stands for is the first one with that id. The index it returns
  is \<open>-1\<close> or a position inside the list, so the read \<open>clips[clipIndex]\<close> is in range.
\<close>

lemma findIndex_first:
  "i < length xs \<Longrightarrow> P (xs ! i) \<Longrightarrow> \<forall>j<i. \<not> P (xs ! j) \<Longrightarrow> findIndex P xs = int i"
proof (induction xs arbitrary: i)
  case Nil
  then show ?case by simp
next
  case (Cons x xs)
  show ?case
  proof (cases i)
    case 0
    with Cons.prems show ?thesis by simp
  next
    case (Suc k)
    with Cons.prems have nx: "\<not> P x" by auto
    from Suc Cons.prems have "k < length xs" "P (xs ! k)" "\<forall>j<k. \<not> P (xs ! j)" by auto
    then have "findIndex P xs = int k" by (rule Cons.IH)
    with nx Suc show ?thesis by simp
  qed
qed

lemma findIndex_none: "\<forall>x \<in> set xs. \<not> P x \<Longrightarrow> findIndex P xs = - 1"
  by (induction xs) simp_all

lemma findIndex_range:
  "findIndex P xs = - 1 \<or> (0 \<le> findIndex P xs \<and> nat (findIndex P xs) < length xs)"
  by (induction xs) (auto simp add: Let_def)

lemma selected_index:
  assumes "i < length (clips s)" "clips s ! i = c" "selectedClip s = Some (clip_id c)"
    and "\<forall>j<i. clip_id (clips s ! j) \<noteq> clip_id c"
  shows "findIndex (\<lambda>x. Some (clip_id x) = selectedClip s) (clips s) = int i"
  using assms by (intro findIndex_first) simp_all

lemma splitClip_no_selection:
  "falsy (selectedClip s) \<Longrightarrow> splitClip now s = showToast ''Select a clip to split'' ''warning'' s"
  by (simp add: splitClip_def)

lemma splitClip_stale:
  "\<not> falsy (selectedClip s) \<Longrightarrow> \<forall>c \<in> set (clips s). Some (clip_id c) \<noteq> selectedClip s \<Longrightarrow>
   splitClip now s = s"
  using findIndex_none [of "clips s" "\<lambda>c. Some (clip_id c) = selectedClip s"]
  by (simp add: splitClip_def)

lemma splitClip_at_exterior:
  assumes "i < length (clips s)" "clips s ! i = c" "selectedClip s = Some (clip_id c)"
    and "clip_id c \<noteq> 0" and "\<forall>j<i. clip_id (clips s ! j) \<noteq> clip_id c"
    and "currentTime s \<le> startTime c \<or> startTime c + duration c \<le> currentTime s"
  shows "splitClip now s = showToast ''Move playhead inside clip to split'' ''warning'' s"
  using assms selected_index [of i s c] by (auto simp add: splitClip_def Let_def)

text \<open>
  Where no arithmetic result is inspected the rounded and the exact version of
  \<open>splitClip\<close> are the same function.
\<close>

lemma splitClip64_without_arithmetic:
  assumes "falsy (selectedClip s) \<or> (\<forall>c \<in> set (clips s). Some (clip_id c) \<noteq> selectedClip s)"
  shows "splitClip64 now s = splitClip now s"
proof (cases "falsy (selectedClip s)")
  case True
  then show ?thesis by (simp add: splitClip64_def splitClip_def)
next
  case False
  with assms have "findIndex (\<lambda>c. Some (clip_id c) = selectedClip s) (clips s) = - 1"
    by (intro findIndex_none) simp
  with False show ?thesis by (simp add: splitClip64_def splitClip_def)
qed

lemma splitClip64_at_interior:
  assumes "i < length (clips s)" "clips s ! i = c" "selectedClip s = Some (clip_id c)"
    and "clip_id c \<noteq> 0" and "\<forall>j<i. clip_id (clips s ! j) \<noteq> clip_id c"
    and "startTime c < currentTime s" "currentTime s < fadd (startTime c) (duration c)"
  shows "splitClip64 now s = showToast ''Clip split'' ''success''
           (s\<lparr>clips := (clips s)[i := c\<lparr>duration := fsub (currentTime s) (startTime c)\<rparr>]
                @ [c\<lparr>clip_id := now, startTime := currentTime s,
                      duration := fsub (duration c) (fsub (currentTime s) (startTime c))\<rparr>]\<rparr>)"
  using assms selected_index [of i s c] by (simp add: splitClip64_def Let_def)

lemma remainder_close:
  assumes "\<bar>a\<bar> < 2 ^ 1022" "\<bar>d\<bar> < 2 ^ 1022" "\<bar>t\<bar> < 2 ^ 1022"
  shows "\<bar>fsub t a + fsub d (fsub t a) - d\<bar> \<le> \<bar>d - fsub t a\<bar> / 2 ^ 53 + 1 / 2 ^ 1075"
proof -
  define y where "y = t - a"
  define d1 where "d1 = fsub t a"
  have p: "(2::real) ^ 1024 = 4 * 2 ^ 1022" by (rule big_powers(2))
  have "(2::real) ^ 3 \<le> 2 ^ 1022" by (rule power_increasing) simp_all
  then have m8: "(8::real) \<le> 2 ^ 1022" by simp
  have y: "\<bar>y\<bar> < 2 * 2 ^ 1022" using assms unfolding y_def by linarith
  then have "\<bar>y\<bar> < 2 ^ 1024" unfolding p by linarith
  then have "\<bar>nearest y - y\<bar> \<le> \<bar>y\<bar> / 2 ^ 53 + 1 / 2 ^ 1075" by (rule nearest_close)
  moreover have "\<bar>y\<bar> / 2 ^ 53 \<le> \<bar>y\<bar> / 4" by (intro divide_left_mono) simp_all
  ultimately have "\<bar>d1\<bar> \<le> \<bar>y\<bar> + \<bar>y\<bar> / 4 + 1"
    using tiny_le_one unfolding d1_def fsub_def y_def by linarith
  with y assms(2) m8 have "\<bar>d - d1\<bar> < 4 * 2 ^ 1022" by linarith
  then have "\<bar>d - d1\<bar> < 2 ^ 1024" unfolding p by linarith
  then have "\<bar>nearest (d - d1) - (d - d1)\<bar> \<le> \<bar>d - d1\<bar> / 2 ^ 53 + 1 / 2 ^ 1075"
    by (rule nearest_close)
  moreover have "d1 + fsub d d1 - d = nearest (d - d1) - (d - d1)" by (simp add: fsub_def)
  ultimately show ?thesis by (simp add: d1_def)
qed

text \<open>
  Claim C1, as amended. Let \<open>c\<close> be the selected clip of the store (the first clip
  carrying the selected id, which is a number other than 0), let all numbers be below
  \<open>2 ^ 1022\<close> in magnitude, and let the split time \<open>t\<close>, the current playhead time,
  satisfy \<open>startTime c < t\<close> and \<open>t < e\<close>, where \<open>e\<close> is the end of the clip as the
  code computes it, the double nearest to \<open>startTime c + duration c\<close>. Then \<open>splitClip\<close>
  succeeds: in place of \<open>c\<close> stands \<open>c\<close> with the duration \<open>p\<close>, the double nearest to
  \<open>t - startTime c\<close>; one clip is appended, a copy of \<open>c\<close> with the new id,
  \<open>startTime = t\<close> and as duration the double nearest to \<open>duration c - p\<close>; the two
  durations add up to the duration of \<open>c\<close> before the split up to the rounding of that
  last subtraction, at most \<open>\<bar>duration c - p\<bar> / 2 ^ 53 + 1 / 2 ^ 1075\<close>; and the toast
  \<open>Clip split\<close> is shown.
\<close>

theorem splitClip_inside_succeeds:
  assumes "i < length (clips s)" and "clips s ! i = c"
    and "selectedClip s = Some (clip_id c)" and "clip_id c \<noteq> 0"
    and "\<forall>j<i. clip_id (clips s ! j) \<noteq> clip_id c"
    and "currentTime s = t" and "startTime c < t" and "t < fadd (startTime c) (duration c)"
    and "\<bar>startTime c\<bar> < 2 ^ 1022" and "\<bar>duration c\<bar> < 2 ^ 1022" and "\<bar>t\<bar> < 2 ^ 1022"
  shows "clips (splitClip64 now s) =
           (clips s)[i := c\<lparr>duration := fsub t (startTime c)\<rparr>]
             @ [c\<lparr>clip_id := now, startTime := t,
                  duration := fsub (duration c) (fsub t (startTime c))\<rparr>]
         \<and> clips (splitClip64 now s) ! i = c\<lparr>duration := fsub t (startTime c)\<rparr>
         \<and> last (clips (splitClip64 now s)) =
             c\<lparr>clip_id := now, startTime := t,
               duration := fsub (duration c) (fsub t (startTime c))\<rparr>
         \<and> \<bar>duration (clips (splitClip64 now s) ! i) + duration (last (clips (splitClip64 now s)))
             - duration c\<bar>
             \<le> \<bar>duration c - fsub t (startTime c)\<bar> / 2 ^ 53 + 1 / 2 ^ 1075
         \<and> toasts (splitClip64 now s) = toasts s @ [(''Clip split'', ''success'')]"
proof -
  have eq: "splitClip64 now s = showToast ''Clip split'' ''success''
           (s\<lparr>clips := (clips s)[i := c\<lparr>duration := fsub t (startTime c)\<rparr>]
                @ [c\<lparr>clip_id := now, startTime := t,
                      duration := fsub (duration c) (fsub t (startTime c))\<rparr>]\<rparr>)"
    using splitClip64_at_interior [of i s c now] assms by simp
  have close: "\<bar>fsub t (startTime c) + fsub (duration c) (fsub t (startTime c)) - duration c\<bar>
      \<le> \<bar>duration c - fsub t (startTime c)\<bar> / 2 ^ 53 + 1 / 2 ^ 1075"
    using assms(9,10,11) by (rule remainder_close)
  show ?thesis
    using assms(1) close by (simp add: eq showToast_def nth_append)
qed

lemma split_A_values: "fadd 0 10 = 10" "fsub 4 0 = 4" "fsub 10 4 = 6"
  by (simp_all add: fadd_def fsub_def nearest_eval)

theorem splitClip_inside_succeeds_witness:
  "clips (splitClip64 1700000009000 (stateA 4)) =
     [clipA\<lparr>duration := 4\<rparr>, clipA\<lparr>clip_id := 1700000009000, startTime := 4, duration := 6\<rparr>]
   \<and> toasts (splitClip64 1700000009000 (stateA 4)) = [(''Clip split'', ''success'')]"
  using splitClip_inside_succeeds [of 0 "stateA 4" clipA 4 1700000009000]
  by (simp add: stateA_def clipA_def split_A_values)

lemma split_P_values:
  "fadd 0 (8106479329266893 / 9007199254740992) = 8106479329266893 / 9007199254740992"
  "fsub (3602879701896397 / 18014398509481984) 0 = 3602879701896397 / 18014398509481984"
  "fsub (8106479329266893 / 9007199254740992) (3602879701896397 / 18014398509481984)
     = 3152519739159347 / 4503599627370496"
  "fadd (3602879701896397 / 18014398509481984) (3152519739159347 / 4503599627370496)
     = 2026619832316723 / 2251799813685248"
  by (simp_all add: fadd_def fsub_def nearest_eval)

lemma split_Q_values:
  "fadd (3602879701896397 / 36028797018963968) (3152519739159347 / 4503599627370496)
     = 7205759403792793 / 9007199254740992"
  by (simp add: fadd_def nearest_eval)

text \<open>
  Claim C1 as stated fails by rounding. Splitting clip P at \<open>0.2\<close> leaves the durations
  \<open>0.2\<close> and \<open>0.7\<close>, and these do not add up to \<open>0.9\<close>, neither exactly nor as the
  engine adds them (\<open>0.2 + 0.7\<close> is \<open>0.8999999999999999\<close>). The playhead of clip Q lies
  strictly inside the clip, but the end that the code computes, \<open>0.1 + 0.7\<close>, is
  \<open>0.7999999999999999\<close>, the playhead itself, and the split is refused.
\<close>

theorem split_rounding_counterexample:
  "startTime clipP < currentTime stateP
   \<and> currentTime stateP < startTime clipP + duration clipP
   \<and> duration (clips (splitClip64 1700000009000 stateP) ! 0)
       = 3602879701896397 / 18014398509481984
   \<and> duration (clips (splitClip64 1700000009000 stateP) ! 1)
       = 3152519739159347 / 4503599627370496
   \<and> duration (clips (splitClip64 1700000009000 stateP) ! 0)
       + duration (clips (splitClip64 1700000009000 stateP) ! 1) \<noteq> duration clipP
   \<and> fadd (duration (clips (splitClip64 1700000009000 stateP) ! 0))
          (duration (clips (splitClip64 1700000009000 stateP) ! 1)) \<noteq> duration clipP
   \<and> startTime clipQ < currentTime stateQ
   \<and> currentTime stateQ < startTime clipQ + duration clipQ
   \<and> splitClip64 1700000009000 stateQ
       = showToast ''Move playhead inside clip to split'' ''warning'' stateQ"
  by (simp add: splitClip64_def Let_def stateP_def clipP_def stateQ_def clipQ_def showToast_def
      split_P_values split_Q_values)

text \<open>
  Claim C4. When nothing is selected, and when the split time is at or before the start of
  the selected clip \<open>c\<close> or at or after its end, \<open>splitClip\<close> leaves the clip list, the
  selection and the playhead as they are; it returns normally, and the only change is one
  toast of type \<open>warning\<close> appended to the log.
\<close>

theorem splitClip_rejects:
  "(falsy (selectedClip s) \<longrightarrow>
      splitClip now s = s\<lparr>toasts := toasts s @ [(''Select a clip to split'', ''warning'')]\<rparr>
      \<and> clips (splitClip now s) = clips s)
   \<and> (i < length (clips s) \<and> clips s ! i = c \<and> selectedClip s = Some (clip_id c)
       \<and> clip_id c \<noteq> 0 \<and> (\<forall>j<i. clip_id (clips s ! j) \<noteq> clip_id c)
       \<and> (currentTime s \<le> startTime c \<or> currentTime s \<ge> startTime c + duration c) \<longrightarrow>
      splitClip now s =
        s\<lparr>toasts := toasts s @ [(''Move playhead inside clip to split'', ''warning'')]\<rparr>
      \<and> clips (splitClip now s) = clips s)"
  using splitClip_no_selection [of s now] splitClip_at_exterior [of i s c now]
  by (simp add: showToast_def)

theorem splitClip_rejects_witness:
  "splitClip 1700000009000 init_state =
     init_state\<lparr>toasts := [(''Select a clip to split'', ''warning'')]\<rparr>
   \<and> splitClip 1700000009000 (stateA 10) =
     (stateA 10)\<lparr>toasts := [(''Move playhead inside clip to split'', ''warning'')]\<rparr>
   \<and> clips (splitClip 1700000009000 (stateA 0)) = [clipA]"
  using splitClip_rejects [of init_state 1700000009000 0 clipA]
    splitClip_rejects [of "stateA 10" 1700000009000 0 clipA]
    splitClip_rejects [of "stateA 0" 1700000009000 0 clipA]
  by (simp add: stateA_def clipA_def init_state_def)

text \<open>
  Claim C10. When the selection holds an id that no clip of the store carries,
  \<open>splitClip\<close> returns the state as it is: nothing is modified and no toast is shown.
  The two other failure cases (nothing selected, split time outside the clip) each
  add a toast.
\<close>

theorem splitClip_stale_selection_silent:
  "(\<not> falsy (selectedClip s) \<and> (\<forall>c \<in> set (clips s). Some (clip_id c) \<noteq> selectedClip s) \<longrightarrow>
      splitClip now s = s \<and> toasts (splitClip now s) = toasts s)
   \<and> (falsy (selectedClip s) \<longrightarrow> toasts (splitClip now s) \<noteq> toasts s)
   \<and> (i < length (clips s) \<and> clips s ! i = c \<and> selectedClip s = Some (clip_id c)
       \<and> clip_id c \<noteq> 0 \<and> (\<forall>j<i. clip_id (clips s ! j) \<noteq> clip_id c)
       \<and> (currentTime s \<le> startTime c \<or> currentTime s \<ge> startTime c + duration c) \<longrightarrow>
      toasts (splitClip now s) \<noteq> toasts s)"
  using splitClip_stale [of s now] splitClip_no_selection [of s now]
    splitClip_at_exterior [of i s c now]
  by (simp add: showToast_def)

theorem splitClip_stale_selection_silent_witness:
  "splitClip 1700000009000 stateStale = stateStale
   \<and> toasts (splitClip 1700000009000 init_state) \<noteq> toasts init_state
   \<and> toasts (splitClip 1700000009000 (stateA 10)) \<noteq> toasts (stateA 10)"
  using splitClip_stale_selection_silent [of stateStale 1700000009000 0 clipA]
    splitClip_stale_selection_silent [of init_state 1700000009000 0 clipA]
    splitClip_stale_selection_silent [of "stateA 10" 1700000009000 0 clipA]
  by (simp add: stateStale_def stateA_def clipA_def init_state_def)

section \<open>Trimming\<close>


lemma onTrim_right:
  "side ts = RightSide \<Longrightarrow>
   onTrim ts moveX tm c =
     c\<lparr>duration := max 30 (startWidth ts + (moveX - startX ts)) / pixelsPerSecond tm\<rparr>"
  by (simp add: onTrim_def Let_def)




text \<open>
  A right trim assigns the duration only. A left trim that starts from the clip's own
  geometry keeps the end of the clip in place as long as the new left edge is not
  clamped at pixel 0.
\<close>

lemma right_trim_keeps_start:
  "side ts = RightSide \<Longrightarrow> startTime (onTrim ts moveX tm c) = startTime c"
  by (simp add: onTrim_right)

lemma left_trim_keeps_end:
  assumes nz: "pixelsPerSecond tm \<noteq> 0"
    and inside: "0 \<le> startTime c * pixelsPerSecond tm + (moveX - x0)"
  shows "clip_end (onTrim (startTrim x0 c LeftSide tm) moveX tm c) = clip_end c"
proof (cases "duration c * pixelsPerSecond tm - (moveX - x0) > 30")
  case True
  have "(startTime c * pixelsPerSecond tm + (moveX - x0)) / pixelsPerSecond tm
        + (duration c * pixelsPerSecond tm - (moveX - x0)) / pixelsPerSecond tm
        = startTime c + duration c"
    using nz by (simp add: field_simps)
  with True inside show ?thesis
    by (simp add: onTrim_def startTrim_def clip_end_def Let_def max_def)
next
  case False
  then show ?thesis
    by (simp add: onTrim_def startTrim_def Let_def)
qed

text \<open>
  Claim C6 does not hold where the left edge is clamped. Clip B spans \<open>[1,11)\<close> at 35
  pixels per second; dragging its left handle 70 pixels to the left clamps the new left
  edge at pixel 0 but still widens the clip by 70 pixels, so the clip becomes
  \<open>[0,12)\<close>: its end has moved from 11 to 12.
\<close>

theorem left_trim_clamped_moves_end:
  "clip_end clipB = 11
   \<and> startTime (onTrim (startTrim 100 clipB LeftSide timeline35) 30 timeline35 clipB) = 0
   \<and> duration (onTrim (startTrim 100 clipB LeftSide timeline35) 30 timeline35 clipB) = 12
   \<and> clip_end (onTrim (startTrim 100 clipB LeftSide timeline35) 30 timeline35 clipB) = 12"
  by (simp add: pps35 startTrim_def clipB_def clip_end_def onTrim_def)

section \<open>Clip ids\<close>

lemma ids_list_update:
  "clip_id c' = clip_id (xs ! i) \<Longrightarrow> map clip_id (xs[i := c']) = map clip_id xs"
  by (cases "i < length xs") (simp_all add: map_update list_update_same_conv list_update_beyond)

lemma ids_splitClip:
  "map clip_id (clips (splitClip now s)) = map clip_id (clips s)
   \<or> map clip_id (clips (splitClip now s)) = map clip_id (clips s) @ [now]"
  by (simp add: splitClip_def Let_def showToast_def ids_list_update)

text \<open>
  Claim C8, as amended. Every clip-creating operation gives the new clip the clock reading
  of the moment as its id (a text clip takes the id of its overlay), and checks nothing.
  If the ids of the store are pairwise distinct and that reading (the overlay's id) is not
  among them, the ids are pairwise distinct afterwards, for \<open>addClip\<close>, the drop handler,
  \<open>splitClip\<close> and \<open>addTextClip\<close>.
\<close>

theorem fresh_clock_keeps_ids_distinct:
  assumes "distinct (map clip_id (clips s))"
  shows "map clip_id (clips (addClip item now s)) = map clip_id (clips s) @ [now]
       \<and> map clip_id (clips (dropClip target x l (Some data) now tm s)) = map clip_id (clips s) @ [now]
       \<and> map clip_id (clips (addTextClip ov s)) = map clip_id (clips s) @ [overlay_id ov]
       \<and> (now \<notin> set (map clip_id (clips s)) \<longrightarrow>
            distinct (map clip_id (clips (addClip item now s)))
            \<and> distinct (map clip_id (clips (dropClip target x l payload now tm s)))
            \<and> distinct (map clip_id (clips (splitClip now s))))
       \<and> (overlay_id ov \<notin> set (map clip_id (clips s)) \<longrightarrow>
            distinct (map clip_id (clips (addTextClip ov s))))"
proof (intro conjI impI)
  show "map clip_id (clips (addClip item now s)) = map clip_id (clips s) @ [now]"
    by (simp add: addClip_def showToast_def)
  show "map clip_id (clips (dropClip target x l (Some data) now tm s)) = map clip_id (clips s) @ [now]"
    by (simp add: dropClip_def)
  show "map clip_id (clips (addTextClip ov s)) = map clip_id (clips s) @ [overlay_id ov]"
    by (simp add: addTextClip_def)
next
  assume fresh: "now \<notin> set (map clip_id (clips s))"
  show "distinct (map clip_id (clips (addClip item now s)))"
    using assms fresh by (simp add: addClip_def showToast_def)
  show "distinct (map clip_id (clips (dropClip target x l payload now tm s)))"
    using assms fresh by (cases payload) (simp_all add: dropClip_def)
  show "distinct (map clip_id (clips (splitClip now s)))"
    using assms fresh ids_splitClip [of now s] by auto
next
  assume "overlay_id ov \<notin> set (map clip_id (clips s))"
  then show "distinct (map clip_id (clips (addTextClip ov s)))"
    using assms by (simp add: addTextClip_def)
qed

theorem fresh_clock_keeps_ids_distinct_witness:
  "distinct (map clip_id (clips (stateA 4)))
   \<and> map clip_id (clips (addClip mediaB 1700000005000 (stateA 4))) = [1700000000000, 1700000005000]
   \<and> distinct (map clip_id (clips (addClip mediaB 1700000005000 (stateA 4))))
   \<and> distinct (map clip_id
        (clips (dropClip AudioTrack 70 0 (Some mediaB) 1700000005000 timeline35 (stateA 4))))
   \<and> distinct (map clip_id (clips (splitClip 1700000005000 (stateA 4))))
   \<and> distinct (map clip_id (clips (addTextClip overlayT (stateA 4))))"
  using fresh_clock_keeps_ids_distinct [where s = "stateA 4" and item = mediaB
      and now = 1700000005000 and target = AudioTrack and x = 70 and l = 0 and data = mediaB
      and tm = timeline35 and ov = overlayT and payload = "Some mediaB"]
  by (simp add: stateA_def clipA_def overlayT_def)

text \<open>
  Claim C8 as stated fails when two clips are created at the same clock reading: two
  \<open>addClip\<close> calls within one millisecond give two clips with one id.
\<close>

theorem same_clock_reading_counterexample:
  "distinct (map clip_id (clips (addClip mediaA 1700000000000 init_state)))
   \<and> \<not> distinct (map clip_id
        (clips (addClip mediaB 1700000000000 (addClip mediaA 1700000000000 init_state))))"
  by (simp add: addClip_def showToast_def init_state_def)

section \<open>Moving a clip\<close>

text \<open>
  Claim C9. During a drag the clip of the session gets the start time
  \<open>max 0 ((clientX - trackLeft - dragOffset) / pixelsPerSecond)\<close> and nothing else of it
  changes; the start time after a move is never negative, and a negative requested time
  gives 0. The drop handler appends one clip whose start time is
  \<open>max 0 ((clientX - rectLeft) / pixelsPerSecond)\<close>, never negative, and shows no toast.
\<close>

theorem move_clamps_start:
  "(isDragging tm \<and> dragClip tm = Some c \<longrightarrow>
      onDrag x trackLeft tm =
        tm\<lparr>dragClip := Some (c\<lparr>startTime :=
              max 0 ((x - trackLeft - dragOffset tm) / pixelsPerSecond tm)\<rparr>)\<rparr>)
   \<and> (isDragging tm \<and> dragClip (onDrag x trackLeft tm) = Some c' \<longrightarrow> 0 \<le> startTime c')
   \<and> (isDragging tm \<and> dragClip tm = Some c
        \<and> (x - trackLeft - dragOffset tm) / pixelsPerSecond tm < 0 \<longrightarrow>
      dragClip (onDrag x trackLeft tm) = Some (c\<lparr>startTime := 0\<rparr>))
   \<and> clips (dropClip target x rectLeft (Some data) now tm s) =
        clips s @ [last (clips (dropClip target x rectLeft (Some data) now tm s))]
   \<and> startTime (last (clips (dropClip target x rectLeft (Some data) now tm s))) =
        max 0 ((x - rectLeft) / pixelsPerSecond tm)
   \<and> 0 \<le> startTime (last (clips (dropClip target x rectLeft (Some data) now tm s)))
   \<and> toasts (dropClip target x rectLeft (Some data) now tm s) = toasts s"
proof (intro conjI impI)
  assume "isDragging tm \<and> dragClip tm = Some c"
  then show "onDrag x trackLeft tm =
        tm\<lparr>dragClip := Some (c\<lparr>startTime :=
              max 0 ((x - trackLeft - dragOffset tm) / pixelsPerSecond tm)\<rparr>)\<rparr>"
    by (simp add: onDrag_def Let_def)
next
  assume "isDragging tm \<and> dragClip (onDrag x trackLeft tm) = Some c'"
  then show "0 \<le> startTime c'"
    by (cases "dragClip tm") (auto simp add: onDrag_def Let_def)
next
  assume "isDragging tm \<and> dragClip tm = Some c
        \<and> (x - trackLeft - dragOffset tm) / pixelsPerSecond tm < 0"
  then show "dragClip (onDrag x trackLeft tm) = Some (c\<lparr>startTime := 0\<rparr>)"
    by (simp add: onDrag_def Let_def max_def)
qed (simp_all add: dropClip_def Let_def)

theorem move_clamps_start_witness:
  "dragClip (onDrag (-165) 0 (startDrag 45 clipB 35 timeline35)) = Some (clipB\<lparr>startTime := 0\<rparr>)
   \<and> dragClip (onDrag 80 0 (startDrag 45 clipB 35 timeline35)) = Some (clipB\<lparr>startTime := 2\<rparr>)
   \<and> startTime (last (clips
        (dropClip VideoTrack (-175) 0 (Some mediaA) 1700000005000 timeline35 (stateA 4)))) = 0"
  using move_clamps_start [where tm = "startDrag 45 clipB 35 timeline35" and c = clipB
        and x = "-165" and trackLeft = 0 and c' = "clipB\<lparr>startTime := 0\<rparr>"]
    move_clamps_start [where tm = "startDrag 45 clipB 35 timeline35" and c = clipB
        and x = 80 and trackLeft = 0 and c' = "clipB\<lparr>startTime := 2\<rparr>"]
    move_clamps_start [where tm = timeline35 and x = "-175" and target = VideoTrack
        and rectLeft = 0 and data = mediaA and now = 1700000005000 and s = "stateA 4"]
  by (simp add: startDrag_def pps35 clipB_def onDrag_def)

end
